theory Spec2Isabelle
  imports Main "HOL-Library.Word" "HOL-Library.Sublist"
begin

section \<open>The GTK debug-log helper \<open>wxGtkDebugLog\<close>\<close>

text \<open>
  The helper lives in \<^verbatim>\<open>src/gtk/debughlp.cpp\<close>.  The file holds two versions of the
  same function; the first is embedded as \<open>wxGtkDebugLog\<close>, the second as
  \<open>wxGtkDebugLog_2\<close>.  Everything the function touches outside its own body (the process
  environment, the function-local static, the file system and its room, the real-time
  clock, the streams of the C library) is part of an explicit process state that each
  operation takes and returns.
\<close>

subsection \<open>C values\<close>

type_synonym c_int = "32 word"
type_synonym c_long = "64 word"

text \<open>\<^verbatim>\<open>struct timespec\<close>: both fields are printed with \<^verbatim>\<open>%ld\<close> by the source.\<close>

record timespec =
  tv_sec :: c_long
  tv_nsec :: c_long

text \<open>
  An argument passed through the ellipsis of a variadic C function.  \<open>ArgVaList\<close> is a
  \<^verbatim>\<open>va_list\<close> object passed as an argument itself (the second version does that).
\<close>

datatype c_arg = ArgInt c_int | ArgLong c_long | ArgStr string | ArgVaList "c_arg list"

subsection \<open>Formatted output\<close>

text \<open>
  The C library's \<^verbatim>\<open>printf\<close> family on the conversions the two versions and their
  callers use: \<^verbatim>\<open>%d\<close>, \<^verbatim>\<open>%ld\<close>, \<^verbatim>\<open>%s\<close> and \<^verbatim>\<open>%%\<close>.  A conversion whose argument is
  missing or of another type is undefined behaviour in C; it is an error value here, as is
  a conversion outside the four above.  Arguments left over when the format is exhausted
  are ignored, as the C standard says.
\<close>

datatype undefined_behaviour = MissingArgument | ArgumentTypeMismatch | UnmodelledConversion

definition digit_char :: "nat \<Rightarrow> char" where
  "digit_char d = ''0123456789'' ! d"

fun dec_nat :: "nat \<Rightarrow> string" where
  "dec_nat n = (if n < 10 then [digit_char n] else dec_nat (n div 10) @ [digit_char (n mod 10)])"

declare dec_nat.simps [simp del]

definition dec_int :: "int \<Rightarrow> string" where
  "dec_int i = (if i < 0 then CHR ''-'' # dec_nat (nat (- i)) else dec_nat (nat i))"

definition emit :: "string \<Rightarrow> undefined_behaviour + string \<Rightarrow> undefined_behaviour + string" where
  "emit s r = (case r of Inl ub \<Rightarrow> Inl ub | Inr t \<Rightarrow> Inr (s @ t))"

fun format_c :: "string \<Rightarrow> c_arg list \<Rightarrow> undefined_behaviour + string" where
  "format_c [] args = Inr []"
| "format_c (c # fmt) args =
     (if c \<noteq> CHR ''%'' then emit [c] (format_c fmt args)
      else case fmt of
        [] \<Rightarrow> Inl UnmodelledConversion
      | d # fmt' \<Rightarrow>
          if d = CHR ''%'' then emit ''%'' (format_c fmt' args)
          else if d = CHR ''d'' then
            (case args of
               [] \<Rightarrow> Inl MissingArgument
             | ArgInt i # rest \<Rightarrow> emit (dec_int (sint i)) (format_c fmt' rest)
             | _ # rest \<Rightarrow> Inl ArgumentTypeMismatch)
          else if d = CHR ''s'' then
            (case args of
               [] \<Rightarrow> Inl MissingArgument
             | ArgStr s # rest \<Rightarrow> emit s (format_c fmt' rest)
             | _ # rest \<Rightarrow> Inl ArgumentTypeMismatch)
          else if d = CHR ''l'' then
            (case fmt' of
               [] \<Rightarrow> Inl UnmodelledConversion
             | e # fmt'' \<Rightarrow>
                 if e = CHR ''d'' then
                   (case args of
                      [] \<Rightarrow> Inl MissingArgument
                    | ArgLong i # rest \<Rightarrow> emit (dec_int (sint i)) (format_c fmt'' rest)
                    | _ # rest \<Rightarrow> Inl ArgumentTypeMismatch)
                 else Inl UnmodelledConversion)
          else Inl UnmodelledConversion)"

subsection \<open>The process state\<close>

text \<open>
  The calls a process makes to the C library and the operating system, in the order it
  makes them.  \<open>SysOpen\<close> carries the path, the mode and whether the open succeeded,
  \<open>SysClockGettime\<close> the reading, \<open>SysWrite\<close> the path and the bytes handed to the
  stream (what reaches the file is seen in the file).
\<close>

datatype syscall =
    SysGetenv string
  | SysOpen string string bool
  | SysClockGettime timespec
  | SysWrite string string
  | SysClose string

text \<open>
  \<open>environ\<close> is the environment of the process, \<open>GDK_DEBUG_defined\<close> the function-local
  static of the same name (\<open>None\<close> until its initialiser has run), \<open>files\<close> the content of
  each existing file, \<open>unwritable\<close> the paths that cannot be opened for writing,
  \<open>clock_realtime\<close> what \<^verbatim>\<open>CLOCK_REALTIME\<close> reads now, and \<open>syscalls\<close> the calls made so far.
  \<open>buffered\<close> holds, for each open stream, the bytes the C library has taken and not yet
  handed to the file.  \<open>disk_room\<close> is the number of bytes the file system will still take
  (full disk, quota, file-size limit), \<open>None\<close> when there is no limit.
\<close>

record process =
  environ :: "string \<rightharpoonup> string"
  GDK_DEBUG_defined :: "bool option"
  files :: "string \<rightharpoonup> string"
  unwritable :: "string set"
  clock_realtime :: timespec
  syscalls :: "syscall list"
  buffered :: "string \<rightharpoonup> string"
  disk_room :: "nat option"

definition content :: "process \<Rightarrow> string \<Rightarrow> string" where
  "content p path = (case files p path of None \<Rightarrow> [] | Some bytes \<Rightarrow> bytes)"

definition pending :: "process \<Rightarrow> string \<Rightarrow> string" where
  "pending p stream = (case buffered p stream of None \<Rightarrow> [] | Some bytes \<Rightarrow> bytes)"

text \<open>
  The part of \<open>bytes\<close> the file system takes when they are handed to a file, and whether
  there is room for all of them.
\<close>

definition written :: "process \<Rightarrow> string \<Rightarrow> string" where
  "written p bytes = (case disk_room p of None \<Rightarrow> bytes | Some k \<Rightarrow> take k bytes)"

definition has_room :: "process \<Rightarrow> string \<Rightarrow> bool" where
  "has_room p bytes = (case disk_room p of None \<Rightarrow> True | Some k \<Rightarrow> length bytes \<le> k)"

subsection \<open>Library functions the helper calls\<close>

text \<open>
  Modelled from the spec: \<^verbatim>\<open>wxGetEnv\<close> is defined elsewhere in the library and its body
  is not among the source files.  The specification says of the call
  \<^verbatim>\<open>wxGetEnv("GDK_DEBUG", nullptr)\<close>: "read a fixed environment variable; cache whether it
  is set (its value is irrelevant, only presence matters)".  The second argument is
  \<^verbatim>\<open>nullptr\<close>, so no value is handed back.
\<close>

definition wxGetEnv :: "string \<Rightarrow> process \<Rightarrow> bool \<times> process" where
  "wxGetEnv var p = (environ p var \<noteq> None, p\<lparr>syscalls := syscalls p @ [SysGetenv var]\<rparr>)"

text \<open>
  \<^verbatim>\<open>fopen\<close> for the write-only modes \<^verbatim>\<open>"a"\<close> (create if missing, keep the content, write
  at the end) and \<^verbatim>\<open>"w"\<close> (create or truncate); no other mode yields a stream here.  The
  stream is named by its path and starts with nothing buffered.
\<close>

definition fopen :: "string \<Rightarrow> string \<Rightarrow> process \<Rightarrow> string option \<times> process" where
  "fopen path mode p =
     (if path \<in> unwritable p \<or> (mode \<noteq> ''a'' \<and> mode \<noteq> ''w'')
      then (None, p\<lparr>syscalls := syscalls p @ [SysOpen path mode False]\<rparr>)
      else (Some path,
            p\<lparr>files := (files p)(path \<mapsto> (if mode = ''a'' then content p path else [])),
              buffered := (buffered p)(path \<mapsto> []),
              syscalls := syscalls p @ [SysOpen path mode True]\<rparr>))"

text \<open>Of the clocks of \<^verbatim>\<open>clock_gettime\<close> only the one the source reads is modelled.\<close>

datatype clockid_t = CLOCK_REALTIME

fun clock_gettime :: "clockid_t \<Rightarrow> process \<Rightarrow> timespec \<times> process" where
  "clock_gettime CLOCK_REALTIME p =
     (clock_realtime p, p\<lparr>syscalls := syscalls p @ [SysClockGettime (clock_realtime p)]\<rparr>)"

text \<open>
  Output to a stream is buffered: \<^verbatim>\<open>fprintf\<close> and \<^verbatim>\<open>vfprintf\<close> add the formatted bytes to
  the buffer of the stream and return their number; \<^verbatim>\<open>fclose\<close> hands the buffer to the
  file and returns 0, or \<^verbatim>\<open>EOF\<close> when the file system did not take all of it.  Then only
  the part it took has reached the file: nothing, or the beginning of the bytes.  (A
  buffer that fills up is handed over before \<^verbatim>\<open>fclose\<close>, and then it is \<^verbatim>\<open>fprintf\<close> that
  reports the failure; what reaches the file is the same.)
\<close>

definition fprintf ::
  "string \<Rightarrow> string \<Rightarrow> c_arg list \<Rightarrow> process \<Rightarrow> undefined_behaviour + int \<times> process" where
  "fprintf stream fmt args p =
     (case format_c fmt args of
        Inl ub \<Rightarrow> Inl ub
      | Inr bytes \<Rightarrow>
          Inr (int (length bytes),
               p\<lparr>buffered := (buffered p)(stream \<mapsto> pending p stream @ bytes),
                 syscalls := syscalls p @ [SysWrite stream bytes]\<rparr>))"

text \<open>\<^verbatim>\<open>vfprintf\<close> takes the arguments as a \<^verbatim>\<open>va_list\<close>, here the list itself.\<close>

definition vfprintf ::
  "string \<Rightarrow> string \<Rightarrow> c_arg list \<Rightarrow> process \<Rightarrow> undefined_behaviour + int \<times> process" where
  "vfprintf stream fmt argptr p = fprintf stream fmt argptr p"

definition EOF :: int where
  "EOF = - 1"

definition fclose :: "string \<Rightarrow> process \<Rightarrow> int \<times> process" where
  "fclose stream p =
     (let bytes = pending p stream; taken = written p bytes
      in (if taken = bytes then 0 else EOF,
          p\<lparr>files := (files p)(stream \<mapsto> content p stream @ taken),
            buffered := (buffered p)(stream := None),
            disk_room := map_option (\<lambda>k. k - length taken) (disk_room p),
            syscalls := syscalls p @ [SysClose stream]\<rparr>))"

subsection \<open>The helper, first version\<close>

text \<open>
  \<^verbatim>\<open>const static auto GDK_DEBUG_defined = wxGetEnv("GDK_DEBUG", nullptr);\<close>
  The initialiser of a function-local static runs the first time control passes through
  the declaration; afterwards the stored value is read.
\<close>

definition static_GDK_DEBUG_defined :: "process \<Rightarrow> bool \<times> process" where
  "static_GDK_DEBUG_defined p =
     (case GDK_DEBUG_defined p of
        Some b \<Rightarrow> (b, p)
      | None \<Rightarrow>
          (case wxGetEnv ''GDK_DEBUG'' p of
             (b, p') \<Rightarrow> (b, p'\<lparr>GDK_DEBUG_defined := Some b\<rparr>)))"

text \<open>
  The arguments are those of the source, followed by the arguments passed through the
  ellipsis (\<open>va\<close>) and the process state.  \<^verbatim>\<open>va_start(argptr, src_file)\<close> makes \<open>argptr\<close>
  the arguments after \<open>src_file\<close>, that is \<open>va\<close>.  The result is \<open>Inl\<close> when the call runs
  into undefined behaviour in the formatted output, otherwise the returned \<^verbatim>\<open>bool\<close> and
  the new state.  The source drops what \<^verbatim>\<open>fprintf\<close>, \<^verbatim>\<open>vfprintf\<close> and \<^verbatim>\<open>fclose\<close> return
  (\<open>n1\<close>, \<open>n2\<close> and \<open>rc\<close> below) and returns \<^verbatim>\<open>true\<close> whatever they were.
\<close>

definition wxGtkDebugLog ::
  "string \<Rightarrow> string \<Rightarrow> c_int \<Rightarrow> string \<Rightarrow> c_arg list \<Rightarrow> process
    \<Rightarrow> undefined_behaviour + bool \<times> process" where
  "wxGtkDebugLog format function_name line_num src_file va p =
     (case static_GDK_DEBUG_defined p of (defined, p1) \<Rightarrow>
      if \<not> defined then Inr (False, p1)
      else
        (case fopen ''/tmp/cmclient_gtk.log'' ''a'' p1 of (logfile_, p2) \<Rightarrow>
         case clock_gettime CLOCK_REALTIME p2 of (nano_now, p3) \<Rightarrow>
         case logfile_ of
           Some stream \<Rightarrow>
             (let argptr = va in
              case fprintf stream ''PreciseTime:%ld,%ld. %s:%d:%s--->''
                     [ArgLong (tv_sec nano_now), ArgLong (tv_nsec nano_now),
                      ArgStr src_file, ArgInt line_num, ArgStr function_name] p3 of
                Inl ub \<Rightarrow> Inl ub
              | Inr (n1, p4) \<Rightarrow>
                  (case vfprintf stream format argptr p4 of
                     Inl ub \<Rightarrow> Inl ub
                   | Inr (n2, p5) \<Rightarrow>
                       (case fclose stream p5 of (rc, p6) \<Rightarrow> Inr (True, p6))))
         | None \<Rightarrow> Inr (False, p3)))"

subsection \<open>The helper, second version\<close>

text \<open>
  The second version differs in three lines: \<^verbatim>\<open>va_start(argptr,line_num)\<close> names a
  parameter that is not the last one (compilers warn and start after the last named
  parameter all the same, so \<open>argptr\<close> is \<open>va\<close> again); the fixed format stops after the
  time stamp; and the caller's format goes to \<^verbatim>\<open>fprintf\<close> with \<open>src_file\<close>, \<open>line_num\<close>,
  \<open>function_name\<close> and the \<^verbatim>\<open>va_list\<close> object as its arguments.
\<close>

definition wxGtkDebugLog_2 ::
  "string \<Rightarrow> string \<Rightarrow> c_int \<Rightarrow> string \<Rightarrow> c_arg list \<Rightarrow> process
    \<Rightarrow> undefined_behaviour + bool \<times> process" where
  "wxGtkDebugLog_2 format function_name line_num src_file va p =
     (case static_GDK_DEBUG_defined p of (defined, p1) \<Rightarrow>
      if \<not> defined then Inr (False, p1)
      else
        (case fopen ''/tmp/cmclient_gtk.log'' ''a'' p1 of (logfile_, p2) \<Rightarrow>
         case clock_gettime CLOCK_REALTIME p2 of (nano_now, p3) \<Rightarrow>
         case logfile_ of
           Some stream \<Rightarrow>
             (let argptr = va in
              case fprintf stream ''PreciseTime:%ld,%ld. ''
                     [ArgLong (tv_sec nano_now), ArgLong (tv_nsec nano_now)] p3 of
                Inl ub \<Rightarrow> Inl ub
              | Inr (n1, p4) \<Rightarrow>
                  (case fprintf stream format
                          [ArgStr src_file, ArgInt line_num, ArgStr function_name,
                           ArgVaList argptr] p4 of
                     Inl ub \<Rightarrow> Inl ub
                   | Inr (n2, p5) \<Rightarrow>
                       (case fclose stream p5 of (rc, p6) \<Rightarrow> Inr (True, p6))))
         | None \<Rightarrow> Inr (False, p3)))"

subsection \<open>Processes over time\<close>

text \<open>
  What happens in a process between and around the calls of the helper: the helper is
  called (with the arguments of the source and the arguments passed through the
  ellipsis), the environment is changed, the real-time clock is set, the permissions of
  a path change, or the room of the file system changes.  \<open>run\<close> gives the values the
  calls returned, in order, and the final state; it stops at the first call with
  undefined behaviour.
\<close>

datatype event =
    Call string string c_int string "c_arg list"
  | Setenv string string
  | Unsetenv string
  | ClockSettime timespec
  | Chmod string bool
  | DiskRoom "nat option"

fun step :: "event \<Rightarrow> process \<Rightarrow> undefined_behaviour + bool list \<times> process" where
  "step (Call format function_name line_num src_file va) p =
     (case wxGtkDebugLog format function_name line_num src_file va p of
        Inl ub \<Rightarrow> Inl ub
      | Inr (r, p') \<Rightarrow> Inr ([r], p'))"
| "step (Setenv var val) p = Inr ([], p\<lparr>environ := (environ p)(var \<mapsto> val)\<rparr>)"
| "step (Unsetenv var) p = Inr ([], p\<lparr>environ := (environ p)(var := None)\<rparr>)"
| "step (ClockSettime ts) p = Inr ([], p\<lparr>clock_realtime := ts\<rparr>)"
| "step (Chmod path writable) p =
     Inr ([], p\<lparr>unwritable := (if writable then unwritable p - {path}
                                 else insert path (unwritable p))\<rparr>)"
| "step (DiskRoom room) p = Inr ([], p\<lparr>disk_room := room\<rparr>)"

fun run :: "event list \<Rightarrow> process \<Rightarrow> undefined_behaviour + bool list \<times> process" where
  "run [] p = Inr ([], p)"
| "run (e # es) p =
     (case step e p of
        Inl ub \<Rightarrow> Inl ub
      | Inr (rs, p') \<Rightarrow>
          (case run es p' of
             Inl ub \<Rightarrow> Inl ub
           | Inr (rs', p'') \<Rightarrow> Inr (rs @ rs', p'')))"

fun is_call :: "event \<Rightarrow> bool" where
  "is_call (Call format function_name line_num src_file va) = True"
| "is_call e = False"

subsection \<open>Notions the properties are stated with\<close>

definition log_path :: string where
  "log_path = ''/tmp/cmclient_gtk.log''"

text \<open>
  A call is enabled when the static holds \<^verbatim>\<open>true\<close>, or is not initialised yet and the
  variable is in the environment, so that the initialiser will store \<^verbatim>\<open>true\<close>.
\<close>

definition enabled :: "process \<Rightarrow> bool" where
  "enabled p =
     (case GDK_DEBUG_defined p of Some b \<Rightarrow> b | None \<Rightarrow> environ p ''GDK_DEBUG'' \<noteq> None)"

text \<open>The system calls made, and the bytes added to the log file, from state \<open>p\<close> to state \<open>p'\<close>.\<close>

definition new_syscalls :: "process \<Rightarrow> process \<Rightarrow> syscall list" where
  "new_syscalls p p' = drop (length (syscalls p)) (syscalls p')"

definition appended :: "process \<Rightarrow> process \<Rightarrow> string" where
  "appended p p' = drop (length (content p log_path)) (content p' log_path)"

text \<open>What the fixed format of the first version prints.\<close>

definition time_prefix :: "timespec \<Rightarrow> string" where
  "time_prefix ts =
     ''PreciseTime:'' @ dec_int (sint (tv_sec ts)) @ '','' @ dec_int (sint (tv_nsec ts)) @ ''. ''"

definition log_prefix :: "timespec \<Rightarrow> string \<Rightarrow> c_int \<Rightarrow> string \<Rightarrow> string" where
  "log_prefix ts src_file line_num function_name =
     time_prefix ts @ src_file @ '':'' @ dec_int (sint line_num) @ '':'' @ function_name @ ''--->''"

text \<open>
  The record a call is to write in state \<open>p\<close>: the fixed fields and the caller's formatted
  message.
\<close>

definition log_record ::
  "string \<Rightarrow> string \<Rightarrow> c_int \<Rightarrow> string \<Rightarrow> c_arg list \<Rightarrow> process \<Rightarrow> string" where
  "log_record format function_name line_num src_file va p =
     log_prefix (clock_realtime p) src_file line_num function_name @
     (case format_c format va of Inl ub \<Rightarrow> [] | Inr msg \<Rightarrow> msg)"

text \<open>
  Reading a record back: \<open>scan_line\<close> accepts \<^verbatim>\<open>PreciseTime:<int>,<int>\<close> and returns the
  two integers and the rest of the line, which starts at the full stop.  An \<^verbatim>\<open><int>\<close>
  is a non-empty run of decimal digits, with an optional minus sign in front.
\<close>

definition is_digit :: "char \<Rightarrow> bool" where
  "is_digit c = (c \<in> set ''0123456789'')"

definition digit_val :: "char \<Rightarrow> nat" where
  "digit_val c = of_char c - 48"

definition read_nat :: "string \<Rightarrow> nat option" where
  "read_nat s =
     (if s = [] \<or> \<not> list_all is_digit s then None
      else Some (foldl (\<lambda>a c. 10 * a + digit_val c) 0 s))"

definition read_int :: "string \<Rightarrow> int option" where
  "read_int s =
     (case s of
        [] \<Rightarrow> None
      | c # ds \<Rightarrow>
          if c = CHR ''-'' then map_option (\<lambda>n. - int n) (read_nat ds)
          else map_option int (read_nat s))"

definition scan_line :: "string \<Rightarrow> (int \<times> int \<times> string) option" where
  "scan_line line =
     (if take 12 line \<noteq> ''PreciseTime:'' then None
      else
        let r = drop 12 line;
            secs = takeWhile (\<lambda>c. c \<noteq> CHR '','') r;
            r' = drop 1 (dropWhile (\<lambda>c. c \<noteq> CHR '','') r);
            nsecs = takeWhile (\<lambda>c. c \<noteq> CHR ''.'') r';
            rest = dropWhile (\<lambda>c. c \<noteq> CHR ''.'') r'
        in case read_int secs of
             None \<Rightarrow> None
           | Some s \<Rightarrow> (case read_int nsecs of None \<Rightarrow> None | Some n \<Rightarrow> Some (s, n, rest)))"

definition stamp_of :: "string \<Rightarrow> (int \<times> int) option" where
  "stamp_of line = map_option (\<lambda>(s, n, rest). (s, n)) (scan_line line)"

definition matches_line :: "string \<Rightarrow> string \<Rightarrow> bool" where
  "matches_line rest line =
     (case scan_line line of None \<Rightarrow> False | Some (s, n, rest') \<Rightarrow> rest' = rest)"

text \<open>Time stamps are ordered by seconds, then by nanoseconds.\<close>

definition stamp_le :: "int \<times> int \<Rightarrow> int \<times> int \<Rightarrow> bool" where
  "stamp_le a b = (fst a < fst b \<or> (fst a = fst b \<and> snd a \<le> snd b))"

definition stamp :: "timespec \<Rightarrow> int \<times> int" where
  "stamp ts = (sint (tv_sec ts), sint (tv_nsec ts))"

text \<open>Whether the first system call satisfying \<open>P\<close> is followed by one satisfying \<open>Q\<close>.\<close>

definition occurs_before :: "(syscall \<Rightarrow> bool) \<Rightarrow> (syscall \<Rightarrow> bool) \<Rightarrow> syscall list \<Rightarrow> bool" where
  "occurs_before P Q calls =
     (case dropWhile (\<lambda>c. \<not> P c) calls of [] \<Rightarrow> False | c # later \<Rightarrow> list_ex Q later)"

fun is_open :: "syscall \<Rightarrow> bool" where
  "is_open (SysOpen path mode ok) = True"
| "is_open c = False"

fun is_clock :: "syscall \<Rightarrow> bool" where
  "is_clock (SysClockGettime ts) = True"
| "is_clock c = False"

fun is_write :: "syscall \<Rightarrow> bool" where
  "is_write (SysWrite path bytes) = True"
| "is_write c = False"

fun is_getenv :: "syscall \<Rightarrow> bool" where
  "is_getenv (SysGetenv var) = True"
| "is_getenv c = False"

text \<open>
  A process that has not called the helper yet, with no limit on what the file system
  takes, for the examples.
\<close>

definition fresh :: "(string \<rightharpoonup> string) \<Rightarrow> string set \<Rightarrow> timespec \<Rightarrow> process" where
  "fresh env ro ts =
     \<lparr>environ = env, GDK_DEBUG_defined = None, files = Map.empty, unwritable = ro,
      clock_realtime = ts, syscalls = [], buffered = Map.empty, disk_room = None\<rparr>"

text \<open>The system calls of the static's initialiser, when it still has to run.\<close>

definition init_calls :: "process \<Rightarrow> syscall list" where
  "init_calls p = (if GDK_DEBUG_defined p = None then [SysGetenv ''GDK_DEBUG''] else [])"

text \<open>
  Two states that differ at most in their environments, and agree on whether
  \<^verbatim>\<open>GDK_DEBUG\<close> is in it.
\<close>

definition agree :: "process \<Rightarrow> process \<Rightarrow> bool" where
  "agree p q =
     (GDK_DEBUG_defined p = GDK_DEBUG_defined q \<and> files p = files q \<and>
      unwritable p = unwritable q \<and> clock_realtime p = clock_realtime q \<and>
      syscalls p = syscalls q \<and> buffered p = buffered q \<and> disk_room p = disk_room q \<and>
      (environ p ''GDK_DEBUG'' = None \<longleftrightarrow> environ q ''GDK_DEBUG'' = None))"

text \<open>What can be seen of a run: the returned values, every file, and the system calls.\<close>

definition observe ::
  "undefined_behaviour + bool list \<times> process
    \<Rightarrow> undefined_behaviour + bool list \<times> (string \<rightharpoonup> string) \<times> syscall list" where
  "observe res = (case res of Inl ub \<Rightarrow> Inl ub | Inr (rs, q) \<Rightarrow> Inr (rs, files q, syscalls q))"

text \<open>The process of the examples: \<^verbatim>\<open>GDK_DEBUG=1\<close> in the environment, no file yet.\<close>

definition example_process :: process where
  "example_process =
     fresh [''GDK_DEBUG'' \<mapsto> ''1''] {} \<lparr>tv_sec = 1700000000, tv_nsec = 123456789\<rparr>"

section \<open>Properties\<close>

subsection \<open>Decimal numbers are read back\<close>

lemma less_10_cases: "d < 10 \<Longrightarrow> d \<in> {0, 1, 2, 3, 4, 5, 6, 7, 8, 9::nat}"
  by auto

lemma is_digit_digit_char: "d < 10 \<Longrightarrow> is_digit (digit_char d)"
  using less_10_cases [of d] by (auto simp: digit_char_def is_digit_def)

lemma digit_val_digit_char: "d < 10 \<Longrightarrow> digit_val (digit_char d) = d"
  using less_10_cases [of d] by (auto simp: digit_char_def digit_val_def)

lemma dec_nat_digits: "list_all is_digit (dec_nat n)"
proof (induction n rule: dec_nat.induct)
  case (1 n)
  show ?case
  proof (cases "n < 10")
    case True
    then show ?thesis by (simp add: dec_nat.simps [of n] is_digit_digit_char)
  next
    case False
    with 1 show ?thesis by (simp add: dec_nat.simps [of n] is_digit_digit_char)
  qed
qed

lemma dec_nat_not_Nil: "dec_nat n \<noteq> []"
  by (subst dec_nat.simps) simp

lemma foldl_dec_nat: "foldl (\<lambda>a c. 10 * a + digit_val c) 0 (dec_nat n) = n"
proof (induction n rule: dec_nat.induct)
  case (1 n)
  show ?case
  proof (cases "n < 10")
    case True
    then show ?thesis by (simp add: dec_nat.simps [of n] digit_val_digit_char)
  next
    case False
    with 1 show ?thesis by (simp add: dec_nat.simps [of n] digit_val_digit_char)
  qed
qed

lemma read_nat_dec_nat: "read_nat (dec_nat n) = Some n"
  by (simp add: read_nat_def dec_nat_not_Nil dec_nat_digits foldl_dec_nat)

lemma not_digit_notin_dec_nat: "\<not> is_digit c \<Longrightarrow> c \<notin> set (dec_nat n)"
  using dec_nat_digits [of n] by (auto simp: list_all_iff)

lemma read_int_dec_int: "read_int (dec_int i) = Some i"
proof (cases "i < 0")
  case True
  then show ?thesis by (simp add: read_int_def dec_int_def read_nat_dec_nat)
next
  case False
  obtain c cs where cs: "dec_nat (nat i) = c # cs"
    using dec_nat_not_Nil [of "nat i"] by (cases "dec_nat (nat i)") auto
  have "c \<noteq> CHR ''-''"
    using not_digit_notin_dec_nat [of "CHR ''-''" "nat i"] cs by (auto simp: is_digit_def)
  with False cs read_nat_dec_nat [of "nat i"] show ?thesis
    by (simp add: read_int_def dec_int_def)
qed

lemma comma_notin_dec_int: "CHR '','' \<notin> set (dec_int i)"
  using not_digit_notin_dec_nat [of "CHR '',''"] by (simp add: dec_int_def is_digit_def)

lemma stop_notin_dec_int: "CHR ''.'' \<notin> set (dec_int i)"
  using not_digit_notin_dec_nat [of "CHR ''.''"] by (simp add: dec_int_def is_digit_def)

lemma takeWhile_until: "x \<notin> set xs \<Longrightarrow> takeWhile (\<lambda>c. c \<noteq> x) (xs @ x # ys) = xs"
  by (induction xs) auto

lemma dropWhile_until: "x \<notin> set xs \<Longrightarrow> dropWhile (\<lambda>c. c \<noteq> x) (xs @ x # ys) = x # ys"
  by (induction xs) auto

lemma scan_line_time_prefix:
  "scan_line (time_prefix ts @ rest) = Some (sint (tv_sec ts), sint (tv_nsec ts), ''. '' @ rest)"
proof -
  let ?a = "dec_int (sint (tv_sec ts))" and ?b = "dec_int (sint (tv_nsec ts))"
  have line: "time_prefix ts @ rest = ''PreciseTime:'' @ (?a @ CHR '','' # (?b @ CHR ''.'' # CHR '' '' # rest))"
    by (simp add: time_prefix_def)
  show ?thesis
    unfolding line scan_line_def
    by (simp add: takeWhile_until dropWhile_until comma_notin_dec_int stop_notin_dec_int
        read_int_dec_int)
qed

lemma stamp_of_log_prefix:
  "stamp_of (log_prefix ts src_file line_num function_name @ msg) = Some (stamp ts)"
  by (simp add: stamp_of_def log_prefix_def scan_line_time_prefix stamp_def)

lemma matches_line_log_prefix:
  "matches_line rest (log_prefix ts src_file line_num function_name @ msg)
   \<longleftrightarrow> rest = ''. '' @ src_file @ '':'' @ dec_int (sint line_num) @ '':'' @ function_name @ ''--->'' @ msg"
  by (auto simp add: matches_line_def log_prefix_def scan_line_time_prefix)

subsection \<open>One call, case by case\<close>

lemma format_c_fixed:
  "format_c ''PreciseTime:%ld,%ld. %s:%d:%s--->''
     [ArgLong (tv_sec ts), ArgLong (tv_nsec ts), ArgStr src_file, ArgInt line_num, ArgStr function_name]
   = Inr (log_prefix ts src_file line_num function_name)"
  by (simp add: emit_def log_prefix_def time_prefix_def)

lemma format_c_fixed_2:
  "format_c ''PreciseTime:%ld,%ld. '' [ArgLong (tv_sec ts), ArgLong (tv_nsec ts)]
   = Inr (time_prefix ts)"
  by (simp add: emit_def time_prefix_def)

lemma static_disabled:
  "\<not> enabled p \<Longrightarrow>
   static_GDK_DEBUG_defined p =
     (False, if GDK_DEBUG_defined p = None
             then p\<lparr>GDK_DEBUG_defined := Some False, syscalls := syscalls p @ [SysGetenv ''GDK_DEBUG'']\<rparr>
             else p)"
  by (auto simp: enabled_def static_GDK_DEBUG_defined_def wxGetEnv_def split: option.splits)

lemma static_enabled:
  "enabled p \<Longrightarrow>
   static_GDK_DEBUG_defined p =
     (True, p\<lparr>GDK_DEBUG_defined := Some True, syscalls := syscalls p @ init_calls p\<rparr>)"
  by (auto simp: enabled_def static_GDK_DEBUG_defined_def wxGetEnv_def init_calls_def split: option.splits)

lemma wxGtkDebugLog_disabled:
  "\<not> enabled p \<Longrightarrow>
   wxGtkDebugLog format function_name line_num src_file va p =
     Inr (False, if GDK_DEBUG_defined p = None
                 then p\<lparr>GDK_DEBUG_defined := Some False, syscalls := syscalls p @ [SysGetenv ''GDK_DEBUG'']\<rparr>
                 else p)"
  by (simp add: wxGtkDebugLog_def static_disabled)

lemma wxGtkDebugLog_open_fails:
  "enabled p \<Longrightarrow> log_path \<in> unwritable p \<Longrightarrow>
   wxGtkDebugLog format function_name line_num src_file va p =
     Inr (False, p\<lparr>GDK_DEBUG_defined := Some True,
                   syscalls := syscalls p @ init_calls p @
                     [SysOpen log_path ''a'' False, SysClockGettime (clock_realtime p)]\<rparr>)"
  by (simp add: wxGtkDebugLog_def static_enabled fopen_def log_path_def)

lemma wxGtkDebugLog_written:
  "enabled p \<Longrightarrow> log_path \<notin> unwritable p \<Longrightarrow> format_c format va = Inr msg \<Longrightarrow>
   wxGtkDebugLog format function_name line_num src_file va p =
     Inr (True, p\<lparr>GDK_DEBUG_defined := Some True,
                  files := (files p)(log_path \<mapsto>
                    content p log_path @
                    written p (log_prefix (clock_realtime p) src_file line_num function_name @ msg)),
                  buffered := (buffered p)(log_path := None),
                  disk_room := map_option
                    (\<lambda>k. k - length (written p
                       (log_prefix (clock_realtime p) src_file line_num function_name @ msg)))
                    (disk_room p),
                  syscalls := syscalls p @ init_calls p @
                    [SysOpen log_path ''a'' True, SysClockGettime (clock_realtime p),
                     SysWrite log_path (log_prefix (clock_realtime p) src_file line_num function_name),
                     SysWrite log_path msg, SysClose log_path]\<rparr>)"
  by (cases "disk_room p")
    (simp_all add: wxGtkDebugLog_def static_enabled fopen_def log_path_def
      fprintf_def vfprintf_def format_c_fixed fclose_def content_def pending_def written_def Let_def
      del: format_c.simps)

lemma wxGtkDebugLog_undefined:
  "enabled p \<Longrightarrow> log_path \<notin> unwritable p \<Longrightarrow> format_c format va = Inl ub \<Longrightarrow>
   wxGtkDebugLog format function_name line_num src_file va p = Inl ub"
  by (simp add: wxGtkDebugLog_def static_enabled fopen_def log_path_def
      fprintf_def vfprintf_def format_c_fixed del: format_c.simps)

text \<open>The second version, where its caller's format fits the arguments it passes on.\<close>

lemma wxGtkDebugLog_2_written:
  "enabled p \<Longrightarrow> log_path \<notin> unwritable p \<Longrightarrow>
   format_c format [ArgStr src_file, ArgInt line_num, ArgStr function_name, ArgVaList va] = Inr msg \<Longrightarrow>
   wxGtkDebugLog_2 format function_name line_num src_file va p =
     Inr (True, p\<lparr>GDK_DEBUG_defined := Some True,
                  files := (files p)(log_path \<mapsto>
                    content p log_path @ written p (time_prefix (clock_realtime p) @ msg)),
                  buffered := (buffered p)(log_path := None),
                  disk_room := map_option
                    (\<lambda>k. k - length (written p (time_prefix (clock_realtime p) @ msg)))
                    (disk_room p),
                  syscalls := syscalls p @ init_calls p @
                    [SysOpen log_path ''a'' True, SysClockGettime (clock_realtime p),
                     SysWrite log_path (time_prefix (clock_realtime p)),
                     SysWrite log_path msg, SysClose log_path]\<rparr>)"
  by (cases "disk_room p")
    (simp_all add: wxGtkDebugLog_2_def static_enabled fopen_def log_path_def
      fprintf_def format_c_fixed_2 fclose_def content_def pending_def written_def Let_def
      del: format_c.simps)

lemma wxGtkDebugLog_2_undefined:
  "enabled p \<Longrightarrow> log_path \<notin> unwritable p \<Longrightarrow>
   format_c format [ArgStr src_file, ArgInt line_num, ArgStr function_name, ArgVaList va] = Inl ub \<Longrightarrow>
   wxGtkDebugLog_2 format function_name line_num src_file va p = Inl ub"
  by (simp add: wxGtkDebugLog_2_def static_enabled fopen_def log_path_def
      fprintf_def format_c_fixed_2 del: format_c.simps)

text \<open>With room for the bytes, all of them are taken; in any case a beginning of them.\<close>

lemma written_has_room: "has_room p bytes \<Longrightarrow> written p bytes = bytes"
  by (simp add: has_room_def written_def split: option.splits)

lemma written_no_room: "\<not> has_room p bytes \<Longrightarrow> strict_prefix (written p bytes) bytes"
  by (auto simp: has_room_def written_def strict_prefix_def take_is_prefix split: option.splits)

lemma written_prefix: "prefix (written p bytes) bytes"
  by (simp add: written_def take_is_prefix split: option.splits)

subsection \<open>What a call and a run leave behind\<close>

lemma content_upd: "content (p\<lparr>files := (files p)(path \<mapsto> bytes)\<rparr>) path = bytes"
  by (simp add: content_def)

text \<open>What a returning call leaves behind, whichever branch it took.\<close>

lemma wxGtkDebugLog_returns:
  assumes "wxGtkDebugLog format function_name line_num src_file va p = Inr (r, p')"
  shows "environ p' = environ p" and "unwritable p' = unwritable p"
    and "clock_realtime p' = clock_realtime p"
    and "GDK_DEBUG_defined p' = Some (enabled p)"
    and "r = (enabled p \<and> log_path \<notin> unwritable p)"
    and "syscalls p' = syscalls p @ new_syscalls p p'"
    and "filter is_getenv (new_syscalls p p') = init_calls p"
    and "content p' log_path = content p log_path @ appended p p'"
    and "r \<Longrightarrow> \<exists>msg. format_c format va = Inr msg \<and>
           appended p p' =
             written p (log_prefix (clock_realtime p) src_file line_num function_name @ msg)"
    and "\<not> r \<Longrightarrow> files p' = files p"
proof -
  consider (off) "\<not> enabled p"
    | (ro) "enabled p" "log_path \<in> unwritable p"
    | (ub) ub where "enabled p" "log_path \<notin> unwritable p" "format_c format va = Inl ub"
    | (ok) msg where "enabled p" "log_path \<notin> unwritable p" "format_c format va = Inr msg"
    by (cases "format_c format va") auto
  then have "environ p' = environ p \<and> unwritable p' = unwritable p
    \<and> clock_realtime p' = clock_realtime p
    \<and> GDK_DEBUG_defined p' = Some (enabled p)
    \<and> r = (enabled p \<and> log_path \<notin> unwritable p)
    \<and> syscalls p' = syscalls p @ new_syscalls p p'
    \<and> filter is_getenv (new_syscalls p p') = init_calls p
    \<and> content p' log_path = content p log_path @ appended p p'
    \<and> (r \<longrightarrow> (\<exists>msg. format_c format va = Inr msg \<and>
           appended p p' =
             written p (log_prefix (clock_realtime p) src_file line_num function_name @ msg)))
    \<and> (\<not> r \<longrightarrow> files p' = files p)"
  proof cases
    case off
    with assms show ?thesis
      by (auto simp: wxGtkDebugLog_disabled new_syscalls_def appended_def init_calls_def
          enabled_def content_def split: if_splits option.splits)
  next
    case ro
    with assms show ?thesis
      by (auto simp: wxGtkDebugLog_open_fails new_syscalls_def appended_def init_calls_def
          content_def)
  next
    case ub
    with assms show ?thesis by (simp add: wxGtkDebugLog_undefined)
  next
    case ok
    with assms show ?thesis
      by (auto simp: wxGtkDebugLog_written new_syscalls_def appended_def init_calls_def
          content_def)
  qed
  then show "environ p' = environ p" and "unwritable p' = unwritable p"
    and "clock_realtime p' = clock_realtime p"
    and "GDK_DEBUG_defined p' = Some (enabled p)"
    and "r = (enabled p \<and> log_path \<notin> unwritable p)"
    and "syscalls p' = syscalls p @ new_syscalls p p'"
    and "filter is_getenv (new_syscalls p p') = init_calls p"
    and "content p' log_path = content p log_path @ appended p p'"
    and "r \<Longrightarrow> \<exists>msg. format_c format va = Inr msg \<and>
           appended p p' =
             written p (log_prefix (clock_realtime p) src_file line_num function_name @ msg)"
    and "\<not> r \<Longrightarrow> files p' = files p"
    by blast+
qed

text \<open>Events other than calls leave the static, the files and the system calls alone.\<close>

lemma step_other:
  assumes "\<not> is_call e"
  shows "\<exists>q. step e p = Inr ([], q) \<and> GDK_DEBUG_defined q = GDK_DEBUG_defined p \<and>
           files q = files p \<and> syscalls q = syscalls p"
  using assms by (cases e) auto

lemma content_cong: "files q = files p \<Longrightarrow> content q path = content p path"
  by (simp add: content_def)

lemma run_latched_off:
  "GDK_DEBUG_defined p = Some False \<Longrightarrow>
   \<exists>q. run evs p = Inr (replicate (length (filter is_call evs)) False, q) \<and>
       files q = files p \<and> syscalls q = syscalls p"
proof (induction evs arbitrary: p)
  case Nil
  then show ?case by simp
next
  case (Cons e evs)
  show ?case
  proof (cases "is_call e")
    case True
    then obtain format function_name line_num src_file va
      where e: "e = Call format function_name line_num src_file va"
      by (cases e) auto
    have "\<not> enabled p" using Cons.prems by (simp add: enabled_def)
    then have st: "step e p = Inr ([False], p)"
      using Cons.prems by (simp add: e wxGtkDebugLog_disabled)
    from Cons.IH [OF Cons.prems] st True show ?thesis by auto
  next
    case False
    from step_other [OF False, of p] obtain q where
      q: "step e p = Inr ([], q)" "GDK_DEBUG_defined q = GDK_DEBUG_defined p"
         "files q = files p" "syscalls q = syscalls p"
      by blast
    from Cons.prems q have "GDK_DEBUG_defined q = Some False" by simp
    from Cons.IH [OF this] q False show ?thesis by auto
  qed
qed

lemma run_static_kept:
  "run evs p = Inr (rs, q) \<Longrightarrow> GDK_DEBUG_defined p = Some b \<Longrightarrow>
   GDK_DEBUG_defined q = Some b \<and> (\<exists>cs. syscalls q = syscalls p @ cs \<and> filter is_getenv cs = [])"
proof (induction evs arbitrary: p rs)
  case Nil
  then show ?case by simp
next
  case (Cons e evs)
  from Cons.prems(1) obtain r1 p1 rs' where
    st: "step e p = Inr (r1, p1)" and rn: "run evs p1 = Inr (rs', q)"
    by (auto split: sum.splits)
  have p1: "GDK_DEBUG_defined p1 = Some b \<and>
            (\<exists>cs. syscalls p1 = syscalls p @ cs \<and> filter is_getenv cs = [])"
  proof (cases "is_call e")
    case True
    then obtain format function_name line_num src_file va
      where e: "e = Call format function_name line_num src_file va"
      by (cases e) auto
    from st e obtain r where
      w: "wxGtkDebugLog format function_name line_num src_file va p = Inr (r, p1)"
      by (auto split: sum.splits)
    have "enabled p = b" using Cons.prems(2) by (simp add: enabled_def)
    with wxGtkDebugLog_returns(4,6,7) [OF w] Cons.prems(2) show ?thesis
      by (auto simp: init_calls_def)
  next
    case False
    from step_other [OF False, of p] st Cons.prems(2) show ?thesis by auto
  qed
  then obtain cs where cs: "syscalls p1 = syscalls p @ cs" "filter is_getenv cs = []" by blast
  from Cons.IH [OF rn] p1 obtain cs' where
    q: "GDK_DEBUG_defined q = Some b" "syscalls q = syscalls p1 @ cs'" "filter is_getenv cs' = []"
    by blast
  from q cs have "syscalls q = syscalls p @ (cs @ cs')" "filter is_getenv (cs @ cs') = []"
    by simp_all
  with q(1) show ?case by blast
qed

lemma run_appends:
  "run evs p = Inr (rs, q) \<Longrightarrow> \<exists>bytes. content q log_path = content p log_path @ bytes"
proof (induction evs arbitrary: p rs)
  case Nil
  then show ?case by simp
next
  case (Cons e evs)
  from Cons.prems(1) obtain r1 p1 rs' where
    st: "step e p = Inr (r1, p1)" and rn: "run evs p1 = Inr (rs', q)"
    by (auto split: sum.splits)
  have "\<exists>bytes. content p1 log_path = content p log_path @ bytes"
  proof (cases "is_call e")
    case True
    then obtain format function_name line_num src_file va
      where e: "e = Call format function_name line_num src_file va"
      by (cases e) auto
    from st e obtain r where
      w: "wxGtkDebugLog format function_name line_num src_file va p = Inr (r, p1)"
      by (auto split: sum.splits)
    from wxGtkDebugLog_returns(8) [OF w] show ?thesis by blast
  next
    case False
    from step_other [OF False, of p] st show ?thesis by (auto simp: content_def)
  qed
  with Cons.IH [OF rn] show ?case by auto
qed

subsection \<open>Evaluating the examples\<close>

lemmas exec_defs =
  wxGtkDebugLog_def static_GDK_DEBUG_defined_def wxGetEnv_def fopen_def
  fprintf_def vfprintf_def fclose_def pending_def written_def Let_def content_def emit_def
  dec_int_def dec_nat.simps digit_char_def fresh_def example_process_def enabled_def
  log_path_def new_syscalls_def appended_def

lemmas scan_defs =
  scan_line_def read_int_def read_nat_def is_digit_def digit_val_def

lemma enabled_example: "enabled example_process"
  by (simp add: exec_defs)

lemma writable_example: "log_path \<notin> unwritable example_process"
  by (simp add: exec_defs)

section \<open>The claims\<close>

subsection \<open>C1: the scenario of the specification\<close>

text \<open>
  C1, as amended.  For every enabled call whose open succeeds and whose writes succeed
  (the file system has room for the record), with format \<^verbatim>\<open>"value=%d"\<close>, function name
  \<^verbatim>\<open>"DoWork"\<close>, line number 42, source file \<^verbatim>\<open>"worker.c"\<close> and argument 7, the helper
  returns \<^verbatim>\<open>true\<close> and adds to the end of the log file exactly the bytes
  \<^verbatim>\<open>PreciseTime:<seconds>,<nanoseconds>. worker.c:42:DoWork--->value=7\<close>: the time stamp,
  then source file, line number and function name, then the caller's message, with no
  space after the arrow and no line terminator.
\<close>

theorem scenario_record:
  assumes "enabled p" and "log_path \<notin> unwritable p"
    and "has_room p (log_record ''value=%d'' ''DoWork'' 42 ''worker.c'' [ArgInt 7] p)"
  shows "\<exists>p'. wxGtkDebugLog ''value=%d'' ''DoWork'' 42 ''worker.c'' [ArgInt 7] p = Inr (True, p') \<and>
           content p' log_path = content p log_path @ appended p p' \<and>
           appended p p' =
             ''PreciseTime:'' @ dec_int (sint (tv_sec (clock_realtime p))) @ '','' @
             dec_int (sint (tv_nsec (clock_realtime p))) @ ''. worker.c:42:DoWork--->value=7'' \<and>
           matches_line ''. worker.c:42:DoWork--->value=7'' (appended p p')"
proof -
  have msg: "format_c ''value=%d'' [ArgInt 7] = Inr ''value=7''"
    by (simp add: emit_def dec_int_def dec_nat.simps digit_char_def)
  have line: "dec_int (sint (42 :: c_int)) = ''42''" "dec_int 42 = ''42''"
    by (simp_all add: dec_int_def dec_nat.simps digit_char_def)
  from wxGtkDebugLog_written [OF assms(1,2) msg] obtain p' where
    w: "wxGtkDebugLog ''value=%d'' ''DoWork'' 42 ''worker.c'' [ArgInt 7] p = Inr (True, p')"
    by blast
  have room: "has_room p (log_prefix (clock_realtime p) ''worker.c'' 42 ''DoWork'' @ ''value=7'')"
    using assms(3) by (simp add: log_record_def msg del: format_c.simps)
  from wxGtkDebugLog_returns(9) [OF w] msg written_has_room [OF room] have
    a: "appended p p' = log_prefix (clock_realtime p) ''worker.c'' 42 ''DoWork'' @ ''value=7''"
    by simp
  have m: "matches_line ''. worker.c:42:DoWork--->value=7'' (appended p p')"
    unfolding a matches_line_log_prefix by (simp add: line)
  from a have "appended p p' =
      ''PreciseTime:'' @ dec_int (sint (tv_sec (clock_realtime p))) @ '','' @
      dec_int (sint (tv_nsec (clock_realtime p))) @ ''. worker.c:42:DoWork--->value=7''"
    by (simp add: log_prefix_def time_prefix_def line)
  with w wxGtkDebugLog_returns(8) [OF w] m show ?thesis by blast
qed

text \<open>
  The theorem at the process of the examples, where nothing limits the writes: the file,
  which did not exist, holds the one record.
\<close>

theorem scenario_record_witness:
  "enabled example_process \<and> log_path \<notin> unwritable example_process \<and>
   has_room example_process
     (log_record ''value=%d'' ''DoWork'' 42 ''worker.c'' [ArgInt 7] example_process) \<and>
   (\<exists>p'. wxGtkDebugLog ''value=%d'' ''DoWork'' 42 ''worker.c'' [ArgInt 7] example_process
           = Inr (True, p') \<and>
         content p' log_path =
           ''PreciseTime:1700000000,123456789. worker.c:42:DoWork--->value=7'')"
proof -
  have room: "has_room example_process
     (log_record ''value=%d'' ''DoWork'' 42 ''worker.c'' [ArgInt 7] example_process)"
    by (simp add: has_room_def exec_defs)
  from scenario_record [OF enabled_example writable_example room] obtain p' where
    "wxGtkDebugLog ''value=%d'' ''DoWork'' 42 ''worker.c'' [ArgInt 7] example_process = Inr (True, p')"
    "content p' log_path = content example_process log_path @ appended example_process p'"
    "appended example_process p' =
       ''PreciseTime:'' @ dec_int (sint (tv_sec (clock_realtime example_process))) @ '','' @
       dec_int (sint (tv_nsec (clock_realtime example_process))) @
       ''. worker.c:42:DoWork--->value=7''"
    by blast
  moreover have "content example_process log_path = []"
    and "dec_int (sint (tv_sec (clock_realtime example_process))) = ''1700000000''"
    and "dec_int (sint (tv_nsec (clock_realtime example_process))) = ''123456789''"
    by (simp_all add: exec_defs)
  ultimately show ?thesis
    using enabled_example writable_example room by simp
qed

text \<open>
  C1 as stated fails twice.  The pattern of the claim has a space between the arrow and
  the message, and the bytes written have none.  And with the flag set and the open
  successful the record need not reach the file: when the file system takes no byte, the
  call still returns \<^verbatim>\<open>true\<close> and the log file stays empty.
\<close>

theorem scenario_pattern_counterexample:
  "enabled example_process \<and> log_path \<notin> unwritable example_process \<and>
   (case wxGtkDebugLog ''value=%d'' ''DoWork'' 42 ''worker.c'' [ArgInt 7] example_process of
      Inl ub \<Rightarrow> False
    | Inr (r, p') \<Rightarrow>
        r \<and> appended example_process p' =
              ''PreciseTime:1700000000,123456789. worker.c:42:DoWork--->value=7'' \<and>
        \<not> matches_line ''. worker.c:42:DoWork---> value=7'' (appended example_process p')) \<and>
   (case wxGtkDebugLog ''value=%d'' ''DoWork'' 42 ''worker.c'' [ArgInt 7]
           (example_process\<lparr>disk_room := Some 0\<rparr>) of
      Inl ub \<Rightarrow> False
    | Inr (r, p') \<Rightarrow> r \<and> files p' log_path = Some [])"
  by (simp add: exec_defs scan_defs matches_line_def)

subsection \<open>C2: the flag is computed once\<close>

text \<open>
  C2.  The static is initialised by the first call and never again.  If the variable is in
  the environment at the first call of the process, then after that call and whatever
  follows it (further calls, the variable removed or changed, the clock set, permissions
  changed) the static still holds \<^verbatim>\<open>true\<close>; the environment was read exactly once since the
  process started; and every later call takes the enabled path: it reads no environment,
  opens the log file first and returns whether the open succeeded.
\<close>

theorem enable_latch:
  assumes "GDK_DEBUG_defined p = None" and "environ p ''GDK_DEBUG'' \<noteq> None"
    and "wxGtkDebugLog format1 function_name1 line_num1 src_file1 va1 p = Inr (r1, p1)"
    and "run evs p1 = Inr (rs, q)"
  shows "GDK_DEBUG_defined q = Some True \<and> enabled q \<and>
         filter is_getenv (new_syscalls p q) = [SysGetenv ''GDK_DEBUG''] \<and>
         (\<forall>format function_name line_num src_file va r q'.
            wxGtkDebugLog format function_name line_num src_file va q = Inr (r, q') \<longrightarrow>
              r = (log_path \<notin> unwritable q) \<and>
              filter is_getenv (new_syscalls q q') = [] \<and>
              (\<exists>rest. new_syscalls q q' = SysOpen log_path ''a'' r # rest))"
proof -
  have en: "enabled p" using assms(1,2) by (simp add: enabled_def)
  from wxGtkDebugLog_returns(4,6,7) [OF assms(3)] en assms(1) have
    p1: "GDK_DEBUG_defined p1 = Some True"
      "syscalls p1 = syscalls p @ new_syscalls p p1"
      "filter is_getenv (new_syscalls p p1) = [SysGetenv ''GDK_DEBUG'']"
    by (simp_all add: init_calls_def)
  from run_static_kept [OF assms(4) p1(1)] obtain cs where
    q: "GDK_DEBUG_defined q = Some True" "syscalls q = syscalls p1 @ cs" "filter is_getenv cs = []"
    by blast
  have enq: "enabled q" using q(1) by (simp add: enabled_def)
  have "syscalls q = syscalls p @ (new_syscalls p p1 @ cs)" using p1(2) q(2) by simp
  then have "new_syscalls p q = new_syscalls p p1 @ cs"
    by (simp add: new_syscalls_def [of p q])
  then have once: "filter is_getenv (new_syscalls p q) = [SysGetenv ''GDK_DEBUG'']"
    using p1(3) q(3) by simp
  have later: "r = (log_path \<notin> unwritable q) \<and> filter is_getenv (new_syscalls q q') = [] \<and>
      (\<exists>rest. new_syscalls q q' = SysOpen log_path ''a'' r # rest)"
    if w: "wxGtkDebugLog format function_name line_num src_file va q = Inr (r, q')"
    for format function_name line_num src_file va r q'
  proof (cases "log_path \<in> unwritable q")
    case True
    with w wxGtkDebugLog_open_fails [OF enq True, of format function_name line_num src_file va] q(1)
    show ?thesis by (auto simp: new_syscalls_def init_calls_def)
  next
    case False
    from wxGtkDebugLog_returns(5,9) [OF w] enq False obtain msg where
      r: "r" and msg: "format_c format va = Inr msg" by auto
    with w wxGtkDebugLog_written [OF enq False msg, of function_name line_num src_file] q(1) False
    show ?thesis by (auto simp: new_syscalls_def init_calls_def)
  qed
  from q(1) enq once later show ?thesis by blast
qed

text \<open>
  The theorem at the process of the examples: the variable is removed after the first
  call, and the second call still writes its record.
\<close>

theorem enable_latch_witness:
  "GDK_DEBUG_defined example_process = None \<and> environ example_process ''GDK_DEBUG'' \<noteq> None \<and>
   (\<exists>p1 q q'. wxGtkDebugLog ''first'' ''f'' 1 ''a.c'' [] example_process = Inr (True, p1) \<and>
      run [Unsetenv ''GDK_DEBUG''] p1 = Inr ([], q) \<and>
      environ q ''GDK_DEBUG'' = None \<and>
      GDK_DEBUG_defined q = Some True \<and>
      filter is_getenv (new_syscalls example_process q) = [SysGetenv ''GDK_DEBUG''] \<and>
      wxGtkDebugLog ''second'' ''g'' 2 ''a.c'' [] q = Inr (True, q') \<and>
      hd (new_syscalls q q') = SysOpen log_path ''a'' True)"
proof -
  have h1: "GDK_DEBUG_defined example_process = None"
    and h2: "environ example_process ''GDK_DEBUG'' \<noteq> None"
    by (simp_all add: exec_defs)
  obtain p1 where h3: "wxGtkDebugLog ''first'' ''f'' 1 ''a.c'' [] example_process = Inr (True, p1)"
    by (simp add: exec_defs)
  obtain q where h4: "run [Unsetenv ''GDK_DEBUG''] p1 = Inr ([], q)"
    and e: "environ q ''GDK_DEBUG'' = None" and u: "log_path \<notin> unwritable q"
    using wxGtkDebugLog_returns(2) [OF h3] by (simp add: exec_defs)
  have ok: "format_c ''second'' [] = Inr ''second''" by (simp add: emit_def)
  have enq: "enabled q" using enable_latch [OF h1 h2 h3 h4] by blast
  obtain q' where h5: "wxGtkDebugLog ''second'' ''g'' 2 ''a.c'' [] q = Inr (True, q')"
    using wxGtkDebugLog_written [OF enq u ok] by blast
  from enable_latch [OF h1 h2 h3 h4] h5 have
    "GDK_DEBUG_defined q = Some True"
    "filter is_getenv (new_syscalls example_process q) = [SysGetenv ''GDK_DEBUG'']"
    "\<exists>rest. new_syscalls q q' = SysOpen log_path ''a'' True # rest"
    by blast+
  with h1 h2 h3 h4 h5 e show ?thesis by auto
qed

subsection \<open>C3: a disabled process does nothing\<close>

text \<open>
  C3.  If the variable is absent at the first call of the process, that call and every
  later call returns \<^verbatim>\<open>false\<close>, whatever happens in between (the variable may even be set
  afterwards); no file is created or changed, and the only system call made over all the
  calls is the one reading of the environment by the first call: nothing is opened,
  nothing written, the clock is not read.
\<close>

theorem disabled_calls_do_nothing:
  assumes "GDK_DEBUG_defined p = None" and "environ p ''GDK_DEBUG'' = None"
  shows "\<exists>q. run (Call format function_name line_num src_file va # evs) p
               = Inr (replicate (Suc (length (filter is_call evs))) False, q) \<and>
             files q = files p \<and> new_syscalls p q = [SysGetenv ''GDK_DEBUG'']"
proof -
  have off: "\<not> enabled p" using assms by (simp add: enabled_def)
  let ?p1 = "p\<lparr>GDK_DEBUG_defined := Some False,
                syscalls := syscalls p @ [SysGetenv ''GDK_DEBUG'']\<rparr>"
  have st: "step (Call format function_name line_num src_file va) p = Inr ([False], ?p1)"
    using assms(1) by (simp add: wxGtkDebugLog_disabled [OF off])
  have "GDK_DEBUG_defined ?p1 = Some False" by simp
  from run_latched_off [OF this, of evs] obtain q where
    q: "run evs ?p1 = Inr (replicate (length (filter is_call evs)) False, q)"
       "files q = files ?p1" "syscalls q = syscalls ?p1"
    by blast
  from st q show ?thesis by (simp add: new_syscalls_def)
qed

text \<open>
  The theorem at a process with an empty environment: two calls, the variable set between
  them; both return \<^verbatim>\<open>false\<close> and the log file does not exist afterwards.
\<close>

theorem disabled_calls_do_nothing_witness:
  "GDK_DEBUG_defined (fresh Map.empty {} \<lparr>tv_sec = 5, tv_nsec = 0\<rparr>) = None \<and>
   environ (fresh Map.empty {} \<lparr>tv_sec = 5, tv_nsec = 0\<rparr>) ''GDK_DEBUG'' = None \<and>
   (\<exists>q. run [Call ''value=%d'' ''DoWork'' 42 ''worker.c'' [ArgInt 7],
              Setenv ''GDK_DEBUG'' ''1'',
              Call ''value=%d'' ''DoWork'' 43 ''worker.c'' [ArgInt 8]]
           (fresh Map.empty {} \<lparr>tv_sec = 5, tv_nsec = 0\<rparr>) = Inr ([False, False], q) \<and>
        files q log_path = None \<and> syscalls q = [SysGetenv ''GDK_DEBUG''])"
proof -
  let ?p = "fresh Map.empty {} \<lparr>tv_sec = 5, tv_nsec = 0\<rparr>"
  have h1: "GDK_DEBUG_defined ?p = None" and h2: "environ ?p ''GDK_DEBUG'' = None"
    by (simp_all add: fresh_def)
  from disabled_calls_do_nothing [OF h1 h2,
    of "''value=%d''" "''DoWork''" 42 "''worker.c''" "[ArgInt 7]"
       "[Setenv ''GDK_DEBUG'' ''1'', Call ''value=%d'' ''DoWork'' 43 ''worker.c'' [ArgInt 8]]"]
  obtain q where
    "run [Call ''value=%d'' ''DoWork'' 42 ''worker.c'' [ArgInt 7], Setenv ''GDK_DEBUG'' ''1'',
          Call ''value=%d'' ''DoWork'' 43 ''worker.c'' [ArgInt 8]] ?p = Inr ([False, False], q)"
    "files q = files ?p" "new_syscalls ?p q = [SysGetenv ''GDK_DEBUG'']"
    by (auto simp: numeral_2_eq_2)
  then show ?thesis using h1 h2 by (auto simp: fresh_def new_syscalls_def)
qed

subsection \<open>C4: a failed open\<close>

text \<open>
  C4.  For an enabled call: when the log file cannot be opened, the call returns normally
  with \<^verbatim>\<open>false\<close>, leaves every file as it was and writes nothing (it has tried the open and
  read the clock); when the log file can be opened, the call never returns \<^verbatim>\<open>false\<close>.  So
  the failed open is the only failure the helper reports, and it reports it by its
  return value alone.
\<close>

theorem open_failure_returns_false:
  assumes "enabled p"
  shows "if log_path \<in> unwritable p
         then \<exists>p'. wxGtkDebugLog format function_name line_num src_file va p = Inr (False, p') \<and>
                files p' = files p \<and>
                new_syscalls p p' =
                  init_calls p @
                  [SysOpen log_path ''a'' False, SysClockGettime (clock_realtime p)] \<and>
                \<not> list_ex is_write (new_syscalls p p')
         else \<forall>p'. wxGtkDebugLog format function_name line_num src_file va p \<noteq> Inr (False, p')"
proof (cases "log_path \<in> unwritable p")
  case True
  with assms show ?thesis
    by (simp add: wxGtkDebugLog_open_fails new_syscalls_def init_calls_def)
next
  case False
  have "wxGtkDebugLog format function_name line_num src_file va p \<noteq> Inr (False, p')" for p'
    using wxGtkDebugLog_returns(5) [of format function_name line_num src_file va p False p']
      assms False by auto
  with False show ?thesis by simp
qed

text \<open>
  The theorem at a process whose log path is unwritable (and whose variable is set to the
  empty string).
\<close>

theorem open_failure_returns_false_witness:
  "enabled (fresh [''GDK_DEBUG'' \<mapsto> ''''] {log_path} \<lparr>tv_sec = 5, tv_nsec = 0\<rparr>) \<and>
   log_path \<in> unwritable (fresh [''GDK_DEBUG'' \<mapsto> ''''] {log_path} \<lparr>tv_sec = 5, tv_nsec = 0\<rparr>) \<and>
   (\<exists>p'. wxGtkDebugLog ''value=%d'' ''DoWork'' 42 ''worker.c'' [ArgInt 7]
            (fresh [''GDK_DEBUG'' \<mapsto> ''''] {log_path} \<lparr>tv_sec = 5, tv_nsec = 0\<rparr>)
          = Inr (False, p') \<and>
        files p' log_path = None \<and>
        syscalls p' = [SysGetenv ''GDK_DEBUG'', SysOpen log_path ''a'' False,
                       SysClockGettime \<lparr>tv_sec = 5, tv_nsec = 0\<rparr>])"
proof -
  let ?p = "fresh [''GDK_DEBUG'' \<mapsto> ''''] {log_path} \<lparr>tv_sec = 5, tv_nsec = 0\<rparr>"
  have h1: "enabled ?p" and h2: "log_path \<in> unwritable ?p"
    by (simp_all add: fresh_def enabled_def)
  from open_failure_returns_false [OF h1, of "''value=%d''" "''DoWork''" 42 "''worker.c''" "[ArgInt 7]"] h2
  obtain p' where
    "wxGtkDebugLog ''value=%d'' ''DoWork'' 42 ''worker.c'' [ArgInt 7] ?p = Inr (False, p')"
    "files p' = files ?p"
    "new_syscalls ?p p' =
       init_calls ?p @ [SysOpen log_path ''a'' False, SysClockGettime (clock_realtime ?p)]"
    by auto
  then show ?thesis using h1 h2
    by (auto simp: fresh_def new_syscalls_def init_calls_def)
qed

subsection \<open>C5: the log file only grows at its end\<close>

text \<open>
  C5, as amended.  After any sequence of calls and other events the earlier content of the
  log file is a prefix of its content, and its size has not gone down; the same holds
  across one more call.  When that call returns \<^verbatim>\<open>true\<close> and the file system had room for
  its record, it has added exactly its record after the content it found; when there was
  not room for all of it, it has added a proper beginning of the record (possibly
  nothing); and when it returns \<^verbatim>\<open>false\<close> it has left the content as it was.
\<close>

theorem log_append_only:
  assumes "run evs p = Inr (rs, q)"
    and "wxGtkDebugLog format function_name line_num src_file va q = Inr (r, q')"
  shows "prefix (content p log_path) (content q log_path) \<and>
         length (content p log_path) \<le> length (content q log_path) \<and>
         prefix (content q log_path) (content q' log_path) \<and>
         length (content q log_path) \<le> length (content q' log_path) \<and>
         (if r then
            (\<exists>msg. format_c format va = Inr msg) \<and>
            (if has_room q (log_record format function_name line_num src_file va q)
             then content q' log_path =
                    content q log_path @ log_record format function_name line_num src_file va q
             else \<exists>part. strict_prefix part
                            (log_record format function_name line_num src_file va q) \<and>
                          content q' log_path = content q log_path @ part)
          else content q' log_path = content q log_path)"
proof -
  let ?entry = "log_record format function_name line_num src_file va q"
  from run_appends [OF assms(1)] obtain bytes where
    b: "content q log_path = content p log_path @ bytes" by blast
  note c = wxGtkDebugLog_returns(8) [OF assms(2)]
  have last_call: "if r then
            (\<exists>msg. format_c format va = Inr msg) \<and>
            (if has_room q ?entry
             then content q' log_path = content q log_path @ ?entry
             else \<exists>part. strict_prefix part ?entry \<and>
                          content q' log_path = content q log_path @ part)
          else content q' log_path = content q log_path"
  proof (cases r)
    case True
    with wxGtkDebugLog_returns(9) [OF assms(2)] obtain msg where
      msg: "format_c format va = Inr msg" and a: "appended q q' = written q ?entry"
      by (auto simp: log_record_def)
    show ?thesis
    proof (cases "has_room q ?entry")
      case True
      with \<open>r\<close> msg a c written_has_room [OF True] show ?thesis by auto
    next
      case False
      with \<open>r\<close> msg a c written_no_room [OF False] show ?thesis by auto
    qed
  next
    case False
    with wxGtkDebugLog_returns(10) [OF assms(2)] show ?thesis by (simp add: content_def)
  qed
  moreover have "prefix (content p log_path) (content q log_path)"
    and "length (content p log_path) \<le> length (content q log_path)"
    using b by simp_all
  moreover have "prefix (content q log_path) (content q' log_path)"
    and "length (content q log_path) \<le> length (content q' log_path)"
    using c by (simp, metis le_add1 length_append)
  ultimately show ?thesis by blast
qed

text \<open>The theorem at the process of the examples, for two calls one after the other.\<close>

theorem log_append_only_witness:
  "\<exists>q q'. run [Call ''one;'' ''f'' 1 ''a.c'' []] example_process = Inr ([True], q) \<and>
     wxGtkDebugLog ''two;'' ''g'' 2 ''a.c'' [] q = Inr (True, q') \<and>
     has_room q (log_record ''two;'' ''g'' 2 ''a.c'' [] q) \<and>
     content example_process log_path = [] \<and>
     content q log_path = ''PreciseTime:1700000000,123456789. a.c:1:f--->one;'' \<and>
     content q' log_path = ''PreciseTime:1700000000,123456789. a.c:1:f--->one;'' @
                           ''PreciseTime:1700000000,123456789. a.c:2:g--->two;'' \<and>
     prefix (content q log_path) (content q' log_path)"
proof -
  obtain q where h1: "run [Call ''one;'' ''f'' 1 ''a.c'' []] example_process = Inr ([True], q)"
    and c: "content q log_path = ''PreciseTime:1700000000,123456789. a.c:1:f--->one;''"
    and t: "dec_int (sint (tv_sec (clock_realtime q))) = ''1700000000''"
           "dec_int (sint (tv_nsec (clock_realtime q))) = ''123456789''"
    and u: "log_path \<notin> unwritable q" and e: "enabled q" and d: "disk_room q = None"
    by (simp add: exec_defs)
  have ok: "format_c ''two;'' [] = Inr ''two;''" by (simp add: emit_def)
  obtain q' where h2: "wxGtkDebugLog ''two;'' ''g'' 2 ''a.c'' [] q = Inr (True, q')"
    using wxGtkDebugLog_written [OF e u ok] by blast
  have room: "has_room q (log_record ''two;'' ''g'' 2 ''a.c'' [] q)"
    by (simp add: has_room_def d)
  have two: "dec_int (sint (2 :: c_int)) = ''2''" "dec_int 2 = ''2''"
    by (simp_all add: dec_int_def dec_nat.simps digit_char_def)
  from log_append_only [OF h1 h2] room have
    "prefix (content q log_path) (content q' log_path)"
    "content q' log_path = content q log_path @ log_record ''two;'' ''g'' 2 ''a.c'' [] q"
    by auto
  moreover have "content example_process log_path = []" by (simp add: exec_defs)
  ultimately show ?thesis using h1 h2 c t two room ok
    by (auto simp: log_record_def log_prefix_def time_prefix_def)
qed

text \<open>
  C5 as stated fails: a call that returns \<^verbatim>\<open>true\<close> need not have added its record.  With
  room for five bytes only, the call returns \<^verbatim>\<open>true\<close> and the file holds the first five
  bytes of the record.
\<close>

theorem record_cut_short_counterexample:
  "enabled example_process \<and> log_path \<notin> unwritable example_process \<and>
   (case wxGtkDebugLog ''value=%d'' ''DoWork'' 42 ''worker.c'' [ArgInt 7]
           (example_process\<lparr>disk_room := Some 5\<rparr>) of
      Inl ub \<Rightarrow> False
    | Inr (r, p') \<Rightarrow>
        r \<and> content p' log_path = ''Preci'' \<and>
        content p' log_path \<noteq>
          log_record ''value=%d'' ''DoWork'' 42 ''worker.c'' [ArgInt 7]
            (example_process\<lparr>disk_room := Some 5\<rparr>))"
  by (simp add: exec_defs log_record_def
      log_prefix_def time_prefix_def)

subsection \<open>C6: time stamps are the readings of the real-time clock\<close>

text \<open>
  C6, as amended.  For two calls A and then B that return \<^verbatim>\<open>true\<close> and whose records were
  written (the file system had room for each), with anything in between, the time stamp
  read back from the record of each call is the reading of \<^verbatim>\<open>CLOCK_REALTIME\<close> at that call;
  so the stamp of B is greater than or equal to the stamp of A whenever the clock at B
  reads no earlier than it did at A.
\<close>

theorem timestamps_follow_clock:
  assumes "wxGtkDebugLog formatA function_nameA line_numA src_fileA vaA p = Inr (True, p1)"
    and "has_room p (log_record formatA function_nameA line_numA src_fileA vaA p)"
    and "run evs p1 = Inr (rs, q)"
    and "wxGtkDebugLog formatB function_nameB line_numB src_fileB vaB q = Inr (True, q')"
    and "has_room q (log_record formatB function_nameB line_numB src_fileB vaB q)"
    and "stamp_le (stamp (clock_realtime p)) (stamp (clock_realtime q))"
  shows "\<exists>a b. stamp_of (appended p p1) = Some a \<and> stamp_of (appended q q') = Some b \<and>
           a = stamp (clock_realtime p) \<and> b = stamp (clock_realtime q) \<and> stamp_le a b"
proof -
  from wxGtkDebugLog_returns(9) [OF assms(1)] obtain msgA where
    "format_c formatA vaA = Inr msgA"
    "appended p p1 =
       written p (log_prefix (clock_realtime p) src_fileA line_numA function_nameA @ msgA)"
    by auto
  with written_has_room [OF assms(2)] have
    "stamp_of (appended p p1) = Some (stamp (clock_realtime p))"
    by (simp add: log_record_def stamp_of_log_prefix)
  moreover from wxGtkDebugLog_returns(9) [OF assms(4)] obtain msgB where
    "format_c formatB vaB = Inr msgB"
    "appended q q' =
       written q (log_prefix (clock_realtime q) src_fileB line_numB function_nameB @ msgB)"
    by auto
  with written_has_room [OF assms(5)] have
    "stamp_of (appended q q') = Some (stamp (clock_realtime q))"
    by (simp add: log_record_def stamp_of_log_prefix)
  ultimately show ?thesis using assms(6) by simp
qed

text \<open>
  The theorem at the process of the examples, the clock one second and some nanoseconds
  further at the second call.
\<close>

theorem timestamps_follow_clock_witness:
  "\<exists>p1 q q'. wxGtkDebugLog ''one;'' ''f'' 1 ''a.c'' [] example_process = Inr (True, p1) \<and>
     has_room example_process (log_record ''one;'' ''f'' 1 ''a.c'' [] example_process) \<and>
     run [ClockSettime \<lparr>tv_sec = 1700000001, tv_nsec = 5\<rparr>] p1 = Inr ([], q) \<and>
     wxGtkDebugLog ''two;'' ''g'' 2 ''a.c'' [] q = Inr (True, q') \<and>
     has_room q (log_record ''two;'' ''g'' 2 ''a.c'' [] q) \<and>
     stamp_le (stamp (clock_realtime example_process)) (stamp (clock_realtime q)) \<and>
     stamp_of (appended example_process p1) = Some (1700000000, 123456789) \<and>
     stamp_of (appended q q') = Some (1700000001, 5) \<and>
     stamp_le (1700000000, 123456789) (1700000001, 5)"
proof -
  obtain p1 where h1: "wxGtkDebugLog ''one;'' ''f'' 1 ''a.c'' [] example_process = Inr (True, p1)"
    and d1: "disk_room p1 = None"
    by (simp add: exec_defs)
  have r1: "has_room example_process (log_record ''one;'' ''f'' 1 ''a.c'' [] example_process)"
    by (simp add: has_room_def exec_defs)
  obtain q where h2: "run [ClockSettime \<lparr>tv_sec = 1700000001, tv_nsec = 5\<rparr>] p1 = Inr ([], q)"
    and c: "clock_realtime q = \<lparr>tv_sec = 1700000001, tv_nsec = 5\<rparr>"
    and u: "unwritable q = unwritable p1" and g: "GDK_DEBUG_defined q = GDK_DEBUG_defined p1"
    and d: "disk_room q = disk_room p1"
    by simp
  have e: "enabled q" and w: "log_path \<notin> unwritable q"
    using wxGtkDebugLog_returns(2,4) [OF h1] u g by (simp_all add: exec_defs)
  have r2: "has_room q (log_record ''two;'' ''g'' 2 ''a.c'' [] q)"
    by (simp add: has_room_def d d1)
  have ok: "format_c ''two;'' [] = Inr ''two;''" by (simp add: emit_def)
  obtain q' where h3: "wxGtkDebugLog ''two;'' ''g'' 2 ''a.c'' [] q = Inr (True, q')"
    using wxGtkDebugLog_written [OF e w ok] by blast
  have h4: "stamp_le (stamp (clock_realtime example_process)) (stamp (clock_realtime q))"
    by (simp add: c stamp_le_def stamp_def exec_defs)
  have s: "stamp (clock_realtime example_process) = (1700000000, 123456789)"
    "stamp (clock_realtime q) = (1700000001, 5)"
    by (simp_all add: c stamp_def exec_defs)
  from timestamps_follow_clock [OF h1 r1 h2 h3 r2 h4] have
    "stamp_of (appended example_process p1) = Some (1700000000, 123456789)"
    "stamp_of (appended q q') = Some (1700000001, 5)"
    "stamp_le (1700000000, 123456789) (1700000001, 5)"
    unfolding s by auto
  with h1 r1 h2 h3 r2 h4 show ?thesis by blast
qed

text \<open>
  C6 as stated fails: \<^verbatim>\<open>CLOCK_REALTIME\<close> is the settable wall clock.  When it is set back
  between two calls, both of which write their records in full, the second record carries
  the smaller stamp.
\<close>

theorem timestamps_counterexample:
  "(case wxGtkDebugLog ''one;'' ''f'' 1 ''a.c'' [] example_process of
      Inl ub \<Rightarrow> False
    | Inr (rA, p1) \<Rightarrow>
        rA \<and>
        (case run [ClockSettime \<lparr>tv_sec = 1699999999, tv_nsec = 0\<rparr>] p1 of
           Inl ub \<Rightarrow> False
         | Inr (rs, q) \<Rightarrow>
             (case wxGtkDebugLog ''two;'' ''g'' 2 ''a.c'' [] q of
                Inl ub \<Rightarrow> False
              | Inr (rB, q') \<Rightarrow>
                  rB \<and>
                  stamp_of (appended example_process p1) = Some (1700000000, 123456789) \<and>
                  stamp_of (appended q q') = Some (1699999999, 0) \<and>
                  content q' log_path =
                    ''PreciseTime:1700000000,123456789. a.c:1:f--->one;'' @
                    ''PreciseTime:1699999999,0. a.c:2:g--->two;'')))
   \<and> \<not> stamp_le (1700000000, 123456789) (1699999999, 0)"
  by (simp add: exec_defs scan_defs stamp_of_def stamp_le_def)

subsection \<open>C7: the two versions differ\<close>

text \<open>
  C7.  The two versions are not equivalent.  At the process of the examples, an enabled
  call whose open succeeds, with format \<^verbatim>\<open>"%s"\<close> and argument \<^verbatim>\<open>"x"\<close>: the first version
  writes source file, line number, function name, the arrow and the caller's \<^verbatim>\<open>x\<close>; the
  second writes neither the fixed fields nor \<^verbatim>\<open>x\<close>, since the caller's conversion consumes
  \<open>src_file\<close>, the first of the arguments the second version passes to \<^verbatim>\<open>fprintf\<close>
  (\<open>src_file\<close>, \<open>line_num\<close>, \<open>function_name\<close> and the \<^verbatim>\<open>va_list\<close> object).  With the format
  \<^verbatim>\<open>"value=%d"\<close> and argument 7 the first version returns \<^verbatim>\<open>true\<close>, and the second hands
  \<open>src_file\<close> to \<^verbatim>\<open>%d\<close>, which is undefined behaviour.
\<close>

theorem versions_differ:
  "enabled example_process \<and> log_path \<notin> unwritable example_process \<and>
   (\<exists>q1 q2.
      wxGtkDebugLog ''%s'' ''DoWork'' 42 ''worker.c'' [ArgStr ''x''] example_process = Inr (True, q1) \<and>
      wxGtkDebugLog_2 ''%s'' ''DoWork'' 42 ''worker.c'' [ArgStr ''x''] example_process = Inr (True, q2) \<and>
      content q1 log_path = ''PreciseTime:1700000000,123456789. worker.c:42:DoWork--->x'' \<and>
      content q2 log_path = ''PreciseTime:1700000000,123456789. worker.c'' \<and>
      content q1 log_path \<noteq> content q2 log_path) \<and>
   (\<exists>q1. wxGtkDebugLog ''value=%d'' ''DoWork'' 42 ''worker.c'' [ArgInt 7] example_process
           = Inr (True, q1)) \<and>
   wxGtkDebugLog_2 ''value=%d'' ''DoWork'' 42 ''worker.c'' [ArgInt 7] example_process
     = Inl ArgumentTypeMismatch"
proof -
  note en = enabled_example and wr = writable_example
  have stamp: "time_prefix (clock_realtime example_process) = ''PreciseTime:1700000000,123456789. ''"
    and line: "dec_int (sint (42 :: c_int)) = ''42''" "dec_int 42 = ''42''"
    and empty: "content example_process log_path = []"
    and room: "\<And>bytes. written example_process bytes = bytes"
    by (simp_all add: time_prefix_def exec_defs)
  have first: "format_c ''%s'' [ArgStr ''x''] = Inr ''x''"
    and second: "format_c ''%s'' [ArgStr ''worker.c'', ArgInt 42, ArgStr ''DoWork'',
                   ArgVaList [ArgStr ''x'']] = Inr ''worker.c''"
    by (simp_all add: emit_def)
  from wxGtkDebugLog_written [OF en wr first, of "''DoWork''" 42 "''worker.c''"]
  obtain q1 where
    q1: "wxGtkDebugLog ''%s'' ''DoWork'' 42 ''worker.c'' [ArgStr ''x''] example_process = Inr (True, q1)"
      "content q1 log_path = ''PreciseTime:1700000000,123456789. worker.c:42:DoWork--->x''"
    by (simp add: content_def log_prefix_def stamp line room empty [unfolded content_def])
  from wxGtkDebugLog_2_written [OF en wr second]
  obtain q2 where
    q2: "wxGtkDebugLog_2 ''%s'' ''DoWork'' 42 ''worker.c'' [ArgStr ''x''] example_process = Inr (True, q2)"
      "content q2 log_path = ''PreciseTime:1700000000,123456789. worker.c''"
    by (simp add: content_def stamp room empty [unfolded content_def])
  have differ: "content q1 log_path \<noteq> content q2 log_path"
    by (simp add: q1(2) q2(2))
  have "format_c ''value=%d'' [ArgInt 7] = Inr ''value=7''"
    by (simp add: emit_def dec_int_def dec_nat.simps digit_char_def)
  from wxGtkDebugLog_written [OF en wr this, of "''DoWork''" 42 "''worker.c''"]
  have scenario: "\<exists>q1. wxGtkDebugLog ''value=%d'' ''DoWork'' 42 ''worker.c'' [ArgInt 7] example_process
           = Inr (True, q1)"
    by blast
  have "format_c ''value=%d'' [ArgStr ''worker.c'', ArgInt 42, ArgStr ''DoWork'',
          ArgVaList [ArgInt 7]] = Inl ArgumentTypeMismatch"
    by (simp add: emit_def)
  from wxGtkDebugLog_2_undefined [OF en wr this]
  have "wxGtkDebugLog_2 ''value=%d'' ''DoWork'' 42 ''worker.c'' [ArgInt 7] example_process
     = Inl ArgumentTypeMismatch" .
  with en wr q1 q2 differ scenario show ?thesis by blast
qed

subsection \<open>C8: only the presence of the variable counts\<close>

lemma agree_enabled: "agree p q \<Longrightarrow> enabled p = enabled q"
  by (auto simp: agree_def enabled_def split: option.splits)

lemma agree_wxGtkDebugLog:
  assumes "agree p q"
  shows "(\<exists>ub. wxGtkDebugLog format function_name line_num src_file va p = Inl ub \<and>
               wxGtkDebugLog format function_name line_num src_file va q = Inl ub) \<or>
         (\<exists>r p' q'. wxGtkDebugLog format function_name line_num src_file va p = Inr (r, p') \<and>
               wxGtkDebugLog format function_name line_num src_file va q = Inr (r, q') \<and>
               agree p' q')"
proof -
  note en = agree_enabled [OF assms]
  have same: "GDK_DEBUG_defined p = GDK_DEBUG_defined q" "files p = files q"
    "unwritable p = unwritable q" "clock_realtime p = clock_realtime q"
    "syscalls p = syscalls q" "init_calls p = init_calls q"
    "content p log_path = content q log_path"
    "buffered p = buffered q" "disk_room p = disk_room q"
    "\<And>bytes. written p bytes = written q bytes"
    using assms by (simp_all add: agree_def init_calls_def content_def written_def)
  consider (off) "\<not> enabled p"
    | (ro) "enabled p" "log_path \<in> unwritable p"
    | (ub) ub where "enabled p" "log_path \<notin> unwritable p" "format_c format va = Inl ub"
    | (ok) msg where "enabled p" "log_path \<notin> unwritable p" "format_c format va = Inr msg"
    by (cases "format_c format va") auto
  then show ?thesis
  proof cases
    case off
    then have "\<not> enabled q" using en by simp
    with off assms same show ?thesis
      by (auto simp: wxGtkDebugLog_disabled agree_def)
  next
    case ro
    then have "enabled q" "log_path \<in> unwritable q" using en same by simp_all
    with ro assms same show ?thesis
      by (auto simp: wxGtkDebugLog_open_fails agree_def)
  next
    case ub
    then have "enabled q" "log_path \<notin> unwritable q" using en same by simp_all
    with ub show ?thesis
      by (simp add: wxGtkDebugLog_undefined)
  next
    case ok
    then have "enabled q" "log_path \<notin> unwritable q" using en same by simp_all
    with ok assms same show ?thesis
      by (auto simp: wxGtkDebugLog_written agree_def)
  qed
qed

lemma agree_step:
  assumes "agree p q"
  shows "(\<exists>ub. step e p = Inl ub \<and> step e q = Inl ub) \<or>
         (\<exists>rs p' q'. step e p = Inr (rs, p') \<and> step e q = Inr (rs, q') \<and> agree p' q')"
proof (cases e)
  case (Call format function_name line_num src_file va)
  with agree_wxGtkDebugLog [OF assms, of format function_name line_num src_file va]
  show ?thesis by auto
qed (use assms in \<open>auto simp: agree_def\<close>)

lemma agree_run:
  "agree p q \<Longrightarrow>
   (\<exists>ub. run evs p = Inl ub \<and> run evs q = Inl ub) \<or>
   (\<exists>rs p' q'. run evs p = Inr (rs, p') \<and> run evs q = Inr (rs, q') \<and> agree p' q')"
proof (induction evs arbitrary: p q)
  case Nil
  then show ?case by simp
next
  case (Cons e evs)
  from agree_step [OF Cons.prems, of e] show ?case
  proof (elim disjE exE conjE)
    fix ub assume "step e p = Inl ub" "step e q = Inl ub"
    then show ?thesis by simp
  next
    fix rs p' q'
    assume st: "step e p = Inr (rs, p')" "step e q = Inr (rs, q')" and a: "agree p' q'"
    from Cons.IH [OF a] st show ?thesis by auto
  qed
qed

text \<open>
  C8.  Two runs of the same events from states that are identical except for the value
  assigned to \<^verbatim>\<open>GDK_DEBUG\<close> (any two values, the empty string included) cannot be told
  apart: both run into undefined behaviour at the same call, or the calls return the same
  values, every file has the same content and the same system calls were made.
\<close>

theorem value_of_variable_irrelevant:
  "observe (run evs (p\<lparr>environ := (environ p)(''GDK_DEBUG'' \<mapsto> v)\<rparr>)) =
   observe (run evs (p\<lparr>environ := (environ p)(''GDK_DEBUG'' \<mapsto> w)\<rparr>))"
proof -
  have "agree (p\<lparr>environ := (environ p)(''GDK_DEBUG'' \<mapsto> v)\<rparr>)
              (p\<lparr>environ := (environ p)(''GDK_DEBUG'' \<mapsto> w)\<rparr>)"
    by (simp add: agree_def)
  from agree_run [OF this, of evs] show ?thesis
    by (auto simp: observe_def agree_def)
qed

text \<open>
  The theorem for the values \<^verbatim>\<open>all\<close> and the empty string.
\<close>

theorem value_of_variable_irrelevant_witness:
  "observe (run [Call ''value=%d'' ''DoWork'' 42 ''worker.c'' [ArgInt 7]]
             (fresh [''GDK_DEBUG'' \<mapsto> ''all''] {} \<lparr>tv_sec = 5, tv_nsec = 0\<rparr>)) =
   observe (run [Call ''value=%d'' ''DoWork'' 42 ''worker.c'' [ArgInt 7]]
             (fresh [''GDK_DEBUG'' \<mapsto> ''''] {} \<lparr>tv_sec = 5, tv_nsec = 0\<rparr>))"
  using value_of_variable_irrelevant
    [of "[Call ''value=%d'' ''DoWork'' 42 ''worker.c'' [ArgInt 7]]"
        "fresh Map.empty {} \<lparr>tv_sec = 5, tv_nsec = 0\<rparr>" "''all''" "''''"]
  by (simp add: fresh_def)

subsection \<open>C9: the order of open and clock reading\<close>

text \<open>
  C9, as amended.  In every enabled call that returns, the system calls made are: the
  reading of the environment if the static was not initialised yet, then the open of the
  log file in append mode, then the reading of the real-time clock, whether or not the
  open succeeded, and after these no further open or clock reading.  The open comes
  before the clock reading, and not the clock reading before the open.
\<close>

theorem file_opened_before_clock_read:
  assumes "enabled p"
    and "wxGtkDebugLog format function_name line_num src_file va p = Inr (r, p')"
  shows "\<exists>rest. new_syscalls p p' =
           init_calls p @
           SysOpen log_path ''a'' r # SysClockGettime (clock_realtime p) # rest \<and>
         \<not> list_ex is_open rest \<and> \<not> list_ex is_clock rest \<and>
         occurs_before is_open is_clock (new_syscalls p p') \<and>
         \<not> occurs_before is_clock is_open (new_syscalls p p')"
proof (cases "log_path \<in> unwritable p")
  case True
  with assms wxGtkDebugLog_open_fails [OF assms(1) True, of format function_name line_num src_file va]
  show ?thesis
    by (auto simp: new_syscalls_def init_calls_def occurs_before_def)
next
  case False
  from wxGtkDebugLog_returns(5,9) [OF assms(2)] assms(1) False obtain msg where
    "format_c format va = Inr msg" by auto
  from wxGtkDebugLog_written [OF assms(1) False this, of function_name line_num src_file] assms(2)
  show ?thesis
    by (auto simp: new_syscalls_def init_calls_def occurs_before_def)
qed

text \<open>
  The theorem at the process of the examples.
\<close>

theorem file_opened_before_clock_read_witness:
  "enabled example_process \<and>
   (\<exists>p'. wxGtkDebugLog ''value=%d'' ''DoWork'' 42 ''worker.c'' [ArgInt 7] example_process
           = Inr (True, p') \<and>
         occurs_before is_open is_clock (new_syscalls example_process p') \<and>
         \<not> occurs_before is_clock is_open (new_syscalls example_process p'))"
proof -
  obtain p' where
    h: "wxGtkDebugLog ''value=%d'' ''DoWork'' 42 ''worker.c'' [ArgInt 7] example_process = Inr (True, p')"
    by (simp add: exec_defs)
  from file_opened_before_clock_read [OF enabled_example h] h enabled_example
  show ?thesis by blast
qed

text \<open>
  C9 as stated fails: the system calls of the scenario call, in order.  The clock is read
  after the file was opened.
\<close>

theorem clock_before_open_counterexample:
  "enabled example_process \<and>
   (case wxGtkDebugLog ''value=%d'' ''DoWork'' 42 ''worker.c'' [ArgInt 7] example_process of
      Inl ub \<Rightarrow> False
    | Inr (r, p') \<Rightarrow>
        new_syscalls example_process p' =
          [SysGetenv ''GDK_DEBUG'',
           SysOpen ''/tmp/cmclient_gtk.log'' ''a'' True,
           SysClockGettime \<lparr>tv_sec = 1700000000, tv_nsec = 123456789\<rparr>,
           SysWrite ''/tmp/cmclient_gtk.log''
             ''PreciseTime:1700000000,123456789. worker.c:42:DoWork--->'',
           SysWrite ''/tmp/cmclient_gtk.log'' ''value=7'',
           SysClose ''/tmp/cmclient_gtk.log''] \<and>
        \<not> occurs_before is_clock is_open (new_syscalls example_process p'))"
  by (simp add: exec_defs occurs_before_def)

subsection \<open>C10: no line terminator is added\<close>

text \<open>
  C10, as amended.  The bytes a call adds to the log file when it returns \<^verbatim>\<open>true\<close> and its
  writes succeed (the file system has room for the record) are exactly the fixed fields,
  ending in the arrow, followed by the caller's formatted message.  The last byte of
  the record is the last byte of the formatted message, or the \<^verbatim>\<open>>\<close> of the arrow when
  the message is empty; so the record ends in a newline only if the caller's formatted
  message does, whether the newline comes from the format string or from an argument.
\<close>

theorem no_line_terminator_added:
  assumes "wxGtkDebugLog format function_name line_num src_file va p = Inr (True, p')"
    and "has_room p (log_record format function_name line_num src_file va p)"
  shows "\<exists>msg. format_c format va = Inr msg \<and>
           content p' log_path = content p log_path @ appended p p' \<and>
           appended p p' =
             time_prefix (clock_realtime p) @ src_file @ '':'' @ dec_int (sint line_num) @
             '':'' @ function_name @ ''--->'' @ msg \<and>
           last (appended p p') = (if msg = [] then CHR ''>'' else last msg)"
proof -
  from wxGtkDebugLog_returns(9) [OF assms(1)] obtain msg where
    m: "format_c format va = Inr msg"
       "appended p p' =
          written p (log_prefix (clock_realtime p) src_file line_num function_name @ msg)"
    by auto
  from written_has_room [OF assms(2)] m have
    a: "appended p p' = log_prefix (clock_realtime p) src_file line_num function_name @ msg"
    by (simp add: log_record_def)
  have "last (appended p p') = (if msg = [] then CHR ''>'' else last msg)"
    by (simp add: a log_prefix_def)
  with m(1) a wxGtkDebugLog_returns(8) [OF assms(1)] show ?thesis
    by (auto simp: log_prefix_def)
qed

text \<open>
  The theorem at the process of the examples: without a newline in the format the record
  ends in the digit, with one it ends in the newline.
\<close>

theorem no_line_terminator_added_witness:
  "\<exists>p1 p2.
     wxGtkDebugLog ''value=%d'' ''DoWork'' 42 ''worker.c'' [ArgInt 7] example_process = Inr (True, p1) \<and>
     has_room example_process
       (log_record ''value=%d'' ''DoWork'' 42 ''worker.c'' [ArgInt 7] example_process) \<and>
     last (appended example_process p1) = CHR ''7'' \<and>
     wxGtkDebugLog (''value=%d'' @ [CHR 0x0A]) ''DoWork'' 42 ''worker.c'' [ArgInt 7] example_process
       = Inr (True, p2) \<and>
     has_room example_process
       (log_record (''value=%d'' @ [CHR 0x0A]) ''DoWork'' 42 ''worker.c'' [ArgInt 7] example_process) \<and>
     last (appended example_process p2) = CHR 0x0A"
proof -
  obtain p1 where
    h1: "wxGtkDebugLog ''value=%d'' ''DoWork'' 42 ''worker.c'' [ArgInt 7] example_process = Inr (True, p1)"
    by (simp add: exec_defs)
  obtain p2 where
    h2: "wxGtkDebugLog (''value=%d'' @ [CHR 0x0A]) ''DoWork'' 42 ''worker.c'' [ArgInt 7] example_process
           = Inr (True, p2)"
    by (simp add: exec_defs)
  have r1: "has_room example_process
       (log_record ''value=%d'' ''DoWork'' 42 ''worker.c'' [ArgInt 7] example_process)"
    and r2: "has_room example_process
       (log_record (''value=%d'' @ [CHR 0x0A]) ''DoWork'' 42 ''worker.c'' [ArgInt 7] example_process)"
    by (simp_all add: has_room_def exec_defs)
  have m1: "format_c ''value=%d'' [ArgInt 7] = Inr ''value=7''"
    and m2: "format_c (''value=%d'' @ [CHR 0x0A]) [ArgInt 7] = Inr (''value=7'' @ [CHR 0x0A])"
    by (simp_all add: emit_def dec_int_def dec_nat.simps digit_char_def)
  from no_line_terminator_added [OF h1 r1] m1 have "last (appended example_process p1) = CHR ''7''"
    by auto
  moreover from no_line_terminator_added [OF h2 r2] m2 have
    "last (appended example_process p2) = CHR 0x0A"
    by auto
  ultimately show ?thesis using h1 h2 r1 r2 by blast
qed

text \<open>
  C10 as stated fails: the record can end in a newline that the caller's format string
  does not supply.  With the format \<^verbatim>\<open>"%s"\<close> and an argument that ends in a newline,
  the record ends in that newline, and there is none in the format string.
\<close>

theorem newline_from_argument_counterexample:
  "(case wxGtkDebugLog ''%s'' ''DoWork'' 42 ''worker.c'' [ArgStr (''x'' @ [CHR 0x0A])]
          example_process of
      Inl ub \<Rightarrow> False
    | Inr (r, p') \<Rightarrow>
        r \<and>
        appended example_process p' =
          ''PreciseTime:1700000000,123456789. worker.c:42:DoWork--->x'' @ [CHR 0x0A] \<and>
        last (appended example_process p') = CHR 0x0A) \<and>
   CHR 0x0A \<notin> set ''%s''"
  by (simp add: exec_defs)

end
